theory Spec2Isabelle
  imports Complex_Main
begin

section \<open>Data model of \<^verbatim>\<open>headD.py\<close>\<close>

text \<open>
  The live program is the second half of \<^verbatim>\<open>headD.py\<close> (lines 136 to 285); the first
  half is a commented-out legacy variant. The program is one \<^verbatim>\<open>while\<close> loop over camera
  frames whose only state carried from one frame to the next is the module-level list
  \<^verbatim>\<open>gaze_sequence\<close>.

  Numbers. Frame sizes and pixel coordinates are Python ints (\<open>int\<close>). Angles and gaze
  samples are Python floats; they are modelled as rationals. Every float operation the
  program itself performs is exact on the values it meets: comparisons, \<^verbatim>\<open>abs\<close>,
  \<^verbatim>\<open>max\<close>, \<^verbatim>\<open>min\<close>, and halving an int (exact below \<open>2^53\<close>). The inexact float
  arithmetic lives in the collaborators (the landmark network, OpenCV), which are inputs
  of the model.
\<close>

datatype error = IndexError | ValueError | NameError | CvError

type_synonym point = "int \<times> int"

type_synonym landmarks = "point list"

type_synonym array = "rat list list"

text \<open>
  One camera frame as the loop body sees it: \<^verbatim>\<open>h, w, _ = frame.shape\<close> and the faces of
  \<^verbatim>\<open>results.multi_face_landmarks\<close>, each already converted to pixel coordinates (the list
  \<^verbatim>\<open>landmarks\<close> of line 170; its float products \<^verbatim>\<open>l.x * w\<close> belong to the landmark
  adapter). \<^verbatim>\<open>None\<close> and the empty list are both falsy at line 168 and are both \<open>[]\<close> here.
\<close>

record frame =
  frame_width :: int
  frame_height :: int
  multi_face_landmarks :: "landmarks list"

text \<open>
  The three OpenCV calls of lines 204 to 208 are external: they are a parameter of the
  model. \<open>solvePnP\<close> returns \<^verbatim>\<open>(success, rotation_vector, translation_vector)\<close>,
  \<open>Rodrigues\<close> the rotation matrix, \<open>RQDecomp3x3\<close> the triple \<^verbatim>\<open>angles\<close>. Each of
  them can raise \<^verbatim>\<open>cv2.error\<close> instead of returning (\<open>Inl\<close>); the program has no
  \<^verbatim>\<open>try\<close>, so the exception leaves the main loop.
\<close>

record cv2 =
  solvePnP :: "array \<Rightarrow> array \<Rightarrow> array \<Rightarrow> array \<Rightarrow> error + (bool \<times> array \<times> array)"
  Rodrigues :: "array \<Rightarrow> error + array"
  RQDecomp3x3 :: "array \<Rightarrow> error + (rat \<times> rat \<times> rat)"

text \<open>The per-frame outputs: the two flags, and the line printed at line 276 (if any).\<close>

record flags =
  head_abnormal :: int
  gaze_abnormal :: int
  printed :: "(int \<times> int) option"

section \<open>Parameters\<close>

definition HEAD_MIN :: int where
  "HEAD_MIN = 85"

definition HEAD_MAX :: int where
  "HEAD_MAX = 95"

definition GAZE_THRESHOLD :: int where
  "GAZE_THRESHOLD = 6"

definition SEQUENCE_LENGTH :: nat where
  "SEQUENCE_LENGTH = 6"

section \<open>Python primitives\<close>

definition bindE :: "error + 'a \<Rightarrow> ('a \<Rightarrow> error + 'b) \<Rightarrow> error + 'b" where
  "bindE m f = (case m of Inl e \<Rightarrow> Inl e | Inr x \<Rightarrow> f x)"

text \<open>\<^verbatim>\<open>xs[i]\<close> for a constant index \<open>i \<ge> 0\<close>: IndexError out of range.\<close>

definition getitem :: "'a list \<Rightarrow> nat \<Rightarrow> error + 'a" where
  "getitem xs i = (if i < length xs then Inr (xs ! i) else Inl IndexError)"

fun getitems :: "'a list \<Rightarrow> nat list \<Rightarrow> error + 'a list" where
  "getitems xs [] = Inr []"
| "getitems xs (i # js) =
     bindE (getitem xs i) (\<lambda>p. bindE (getitems xs js) (\<lambda>ps. Inr (p # ps)))"

text \<open>\<^verbatim>\<open>int(x)\<close> on a float truncates towards zero.\<close>

definition py_int :: "rat \<Rightarrow> int" where
  "py_int x = (if 0 \<le> x then \<lfloor>x\<rfloor> else \<lceil>x\<rceil>)"

text \<open>\<^verbatim>\<open>max(xs)\<close> and \<^verbatim>\<open>min(xs)\<close>: ValueError on an empty sequence.\<close>

fun py_max :: "rat list \<Rightarrow> error + rat" where
  "py_max [] = Inl ValueError"
| "py_max (x # xs) = Inr (foldl max x xs)"

fun py_min :: "rat list \<Rightarrow> error + rat" where
  "py_min [] = Inl ValueError"
| "py_min (x # xs) = Inr (foldl min x xs)"

section \<open>Camera model and head pose (lines 175 to 212)\<close>

definition model_points :: array where
  "model_points =
     [[0, 0, 0],
      [0, -330, -65],
      [-225, 170, -135],
      [225, 170, -135],
      [-150, -150, -125],
      [150, -150, -125]]"

definition camera_matrix :: "int \<Rightarrow> int \<Rightarrow> array" where
  "camera_matrix w h =
     (let focal_length = w;
          center = (rat_of_int w / 2, rat_of_int h / 2)
      in [[rat_of_int focal_length, 0, fst center],
          [0, rat_of_int focal_length, snd center],
          [0, 0, 1]])"

definition dist_coeffs :: array where
  "dist_coeffs = replicate 4 [0]"

text \<open>
  The body of the face loop for one face. It returns the variables the code after the
  loop reads: \<^verbatim>\<open>landmarks\<close>, \<^verbatim>\<open>pitch\<close>, \<^verbatim>\<open>yaw\<close>, \<^verbatim>\<open>roll\<close>. The flag \<^verbatim>\<open>success\<close>
  is bound at line 204 and never read. An exception of an OpenCV call ends the body.
\<close>

definition face_body ::
  "cv2 \<Rightarrow> int \<Rightarrow> int \<Rightarrow> landmarks \<Rightarrow> error + (landmarks \<times> rat \<times> rat \<times> rat)" where
  "face_body cv w h landmarks =
     bindE (getitems landmarks [1, 152, 33, 263, 61, 291]) (\<lambda>pts.
       let image_points = map (\<lambda>(x, y). [rat_of_int x, rat_of_int y]) pts in
       bindE (solvePnP cv model_points image_points (camera_matrix w h) dist_coeffs)
         (\<lambda>(success, rotation_vector, translation_vector).
       bindE (Rodrigues cv rotation_vector) (\<lambda>rmat.
       bindE (RQDecomp3x3 cv rmat) (\<lambda>(pitch, yaw, roll).
         Inr (landmarks, pitch, yaw, roll)))))"

text \<open>
  The loop \<^verbatim>\<open>for face in results.multi_face_landmarks\<close>: each iteration overwrites the
  variables; \<open>None\<close> stands for "not yet bound".
\<close>

fun face_loop ::
  "cv2 \<Rightarrow> int \<Rightarrow> int \<Rightarrow> landmarks list \<Rightarrow> (landmarks \<times> rat \<times> rat \<times> rat) option
     \<Rightarrow> error + (landmarks \<times> rat \<times> rat \<times> rat) option" where
  "face_loop cv w h [] vars = Inr vars"
| "face_loop cv w h (face # rest) vars =
     bindE (face_body cv w h face) (\<lambda>vars'. face_loop cv w h rest (Some vars'))"

section \<open>Gaze sample and window (lines 221 to 259)\<close>

definition gaze_sample :: "landmarks \<Rightarrow> error + rat" where
  "gaze_sample landmarks =
     bindE (getitem landmarks 468) (\<lambda>left_iris.
     bindE (getitem landmarks 473) (\<lambda>right_iris.
     bindE (getitem landmarks 33) (\<lambda>left_eye_left.
     bindE (getitem landmarks 133) (\<lambda>left_eye_right.
     bindE (getitem landmarks 362) (\<lambda>right_eye_left.
     bindE (getitem landmarks 263) (\<lambda>right_eye_right.
       let left_eye_center =
             (py_int (rat_of_int (fst left_eye_left + fst left_eye_right) / 2),
              py_int (rat_of_int (snd left_eye_left + snd left_eye_right) / 2));
           right_eye_center =
             (py_int (rat_of_int (fst right_eye_left + fst right_eye_right) / 2),
              py_int (rat_of_int (snd right_eye_left + snd right_eye_right) / 2));
           left_offset = fst left_iris - fst left_eye_center;
           right_offset = fst right_iris - fst right_eye_center;
           avg_offset = rat_of_int (left_offset + right_offset) / 2
       in Inr avg_offset))))))"

text \<open>Lines 251 to 254: append, then drop the oldest sample when longer than the limit.\<close>

definition store_sequence :: "rat list \<Rightarrow> rat \<Rightarrow> rat list" where
  "store_sequence gaze_sequence avg_offset =
     (let appended = gaze_sequence @ [avg_offset]
      in if length appended > SEQUENCE_LENGTH then tl appended else appended)"

text \<open>Lines 257 to 259: the value of \<^verbatim>\<open>gaze_abnormal\<close> after the oscillation check.\<close>

definition detect_oscillation :: "rat list \<Rightarrow> error + int" where
  "detect_oscillation gaze_sequence =
     (if length gaze_sequence = SEQUENCE_LENGTH then
        bindE (py_max gaze_sequence) (\<lambda>mx.
          if mx > rat_of_int GAZE_THRESHOLD then
            bindE (py_min gaze_sequence) (\<lambda>mn.
              if mn < rat_of_int (- GAZE_THRESHOLD) then Inr 1 else Inr 0)
          else Inr 0)
      else Inr 0)"

section \<open>One frame, and the main loop\<close>

definition process_frame :: "cv2 \<Rightarrow> frame \<Rightarrow> rat list \<Rightarrow> error + (flags \<times> rat list)" where
  "process_frame cv fr gaze_sequence =
     (if multi_face_landmarks fr \<noteq> [] then
        bindE (face_loop cv (frame_width fr) (frame_height fr) (multi_face_landmarks fr) None)
          (\<lambda>vars. case vars of
             None \<Rightarrow> Inl NameError
           | Some (landmarks, pitch, yaw, roll) \<Rightarrow>
               let head_angle = yaw in
               if \<bar>head_angle\<bar> > 10 then
                 bindE (gaze_sample landmarks) (\<lambda>avg_offset.
                   let gaze_sequence' = store_sequence gaze_sequence avg_offset in
                   bindE (detect_oscillation gaze_sequence') (\<lambda>g.
                     Inr (\<lparr>head_abnormal = 1, gaze_abnormal = g, printed = Some (1, g)\<rparr>,
                          gaze_sequence')))
               else
                 Inr (\<lparr>head_abnormal = 0, gaze_abnormal = 0, printed = None\<rparr>, gaze_sequence))
      else Inr (\<lparr>head_abnormal = 0, gaze_abnormal = 0, printed = None\<rparr>, gaze_sequence))"

text \<open>
  The \<^verbatim>\<open>while True\<close> loop over the frames the camera delivers before the loop is left
  (capture failure or the escape key); an uncaught exception ends the program.
\<close>

fun run :: "cv2 \<Rightarrow> frame list \<Rightarrow> rat list \<Rightarrow> error + (flags list \<times> rat list)" where
  "run cv [] gaze_sequence = Inr ([], gaze_sequence)"
| "run cv (fr # frs) gaze_sequence =
     bindE (process_frame cv fr gaze_sequence) (\<lambda>(r, gaze_sequence').
       bindE (run cv frs gaze_sequence') (\<lambda>(rs, final). Inr (r # rs, final)))"

text \<open>The flags as lines 165 and 166 set them at the start of a frame; nothing printed.\<close>

definition default_flags :: flags where
  "default_flags = \<lparr>head_abnormal = 0, gaze_abnormal = 0, printed = None\<rparr>"

section \<open>Test fixtures\<close>

text \<open>
  A stand-in for OpenCV, for evaluating the program on concrete frames: the solver
  returns the success flag \<open>ok\<close> it is given and a rotation whose yaw is a tenth of the
  horizontal distance from chin to nose tip; the other two calls pass it on.
\<close>

definition stub_cv :: "bool \<Rightarrow> cv2" where
  "stub_cv ok =
     \<lparr>solvePnP = (\<lambda>mp ip cm dc.
        Inr (ok, [[0], [(ip ! 0 ! 0 - ip ! 1 ! 0) / 10], [0]], [[0], [0], [0]])),
      Rodrigues = (\<lambda>rv. Inr rv),
      RQDecomp3x3 = (\<lambda>rm. Inr (rm ! 0 ! 0, rm ! 1 ! 0, rm ! 2 ! 0))\<rparr>"

text \<open>
  The same stand-in with a solver that raises \<^verbatim>\<open>cv2.error\<close> on the most degenerate
  correspondence, six image points that coincide, and returns with success otherwise.
\<close>

definition strict_cv :: cv2 where
  "strict_cv =
     (stub_cv True)\<lparr>solvePnP := (\<lambda>mp ip cm dc.
        if list_all (\<lambda>p. p = ip ! 0) ip then Inl CvError
        else solvePnP (stub_cv True) mp ip cm dc)\<rparr>"

text \<open>
  A face of 478 landmarks (the mesh with refined iris points), all at the origin except
  the nose tip (index 1) and the two iris centres (468 and 473): the stub's yaw is
  \<open>nose / 10\<close> and the gaze sample is \<open>iris\<close>.
\<close>

definition face_at :: "int \<Rightarrow> int \<Rightarrow> landmarks" where
  "face_at nose iris = (replicate 478 (0, 0))[1 := (nose, 0), 468 := (iris, 0), 473 := (iris, 0)]"

definition frame_of :: "landmarks list \<Rightarrow> frame" where
  "frame_of faces = \<lparr>frame_width = 640, frame_height = 480, multi_face_landmarks = faces\<rparr>"

text \<open>
  Ten frames of one session: head-abnormal frames (yaw 25) whose gaze samples are
  10, -10, 9, -9, 11, -11, separated by frames without a face and by one frame with a
  head-normal face.
\<close>

definition session :: "frame list" where
  "session = map frame_of
     [[face_at 250 10], [], [face_at 250 (- 10)], [face_at 0 0], [face_at 250 9], [],
      [face_at 250 (- 9)], [face_at 250 11], [], [face_at 250 (- 11)]]"

section \<open>Basic facts\<close>

lemma bindE_Inr [simp]: "bindE (Inr x) f = f x"
  by (simp add: bindE_def)

lemma bindE_Inl [simp]: "bindE (Inl e) f = Inl e"
  by (simp add: bindE_def)

lemma bindE_eq_Inr: "bindE m f = Inr y \<longleftrightarrow> (\<exists>x. m = Inr x \<and> f x = Inr y)"
  by (cases m) simp_all

lemma getitem_in_range: "i < length xs \<Longrightarrow> getitem xs i = Inr (xs ! i)"
  by (simp add: getitem_def)

lemma getitems_in_range: "\<forall>i \<in> set js. i < length xs \<Longrightarrow> getitems xs js = Inr (map ((!) xs) js)"
  by (induction js) (simp_all add: getitem_in_range)

lemma foldl_max_Max: "foldl max x xs = Max (insert x (set xs))"
proof (induction xs arbitrary: x)
  case Nil
  show ?case by simp
next
  case (Cons y ys)
  have "Max (insert (max x y) (set ys)) = Max (insert x (insert y (set ys)))"
    by (cases "set ys = {}") (simp_all add: max.assoc)
  with Cons show ?case by simp
qed

lemma foldl_min_Min: "foldl min x xs = Min (insert x (set xs))"
proof (induction xs arbitrary: x)
  case Nil
  show ?case by simp
next
  case (Cons y ys)
  have "Min (insert (min x y) (set ys)) = Min (insert x (insert y (set ys)))"
    by (cases "set ys = {}") (simp_all add: min.assoc)
  with Cons show ?case by simp
qed

lemma py_max_Max: "xs \<noteq> [] \<Longrightarrow> py_max xs = Inr (Max (set xs))"
  by (cases xs) (simp_all add: foldl_max_Max)

lemma py_min_Min: "xs \<noteq> [] \<Longrightarrow> py_min xs = Inr (Min (set xs))"
  by (cases xs) (simp_all add: foldl_min_Min)

lemma detect_full:
  assumes "length gs = 6"
  shows "detect_oscillation gs = Inr (if 6 < Max (set gs) \<and> Min (set gs) < - 6 then 1 else 0)"
proof -
  from assms have ne: "gs \<noteq> []" by auto
  show ?thesis
    using assms by (simp add: detect_oscillation_def SEQUENCE_LENGTH_def GAZE_THRESHOLD_def
        py_max_Max [OF ne] py_min_Min [OF ne])
qed

lemma detect_not_full: "length gs \<noteq> 6 \<Longrightarrow> detect_oscillation gs = Inr 0"
  by (simp add: detect_oscillation_def SEQUENCE_LENGTH_def)

lemma detect_total: "\<exists>g. detect_oscillation gs = Inr g \<and> (g = 0 \<or> g = 1)"
  by (cases "length gs = 6") (simp_all add: detect_full detect_not_full)

section \<open>The gaze window\<close>

lemma store_sequence_step:
  "store_sequence gs x = (if length gs < 6 then gs @ [x] else tl gs @ [x])"
  by (cases gs) (simp_all add: store_sequence_def SEQUENCE_LENGTH_def Let_def)

lemma store_sequence_length: "length gs \<le> 6 \<Longrightarrow> length (store_sequence gs x) \<le> 6"
  by (simp add: store_sequence_step)

lemma store_sequence_drop:
  assumes "length gs \<le> 6"
  shows "store_sequence gs x = drop (length gs + 1 - 6) (gs @ [x])"
proof (cases "length gs = 6")
  case True
  then have "gs \<noteq> []" by auto
  with True show ?thesis
    by (simp add: store_sequence_step drop_Suc)
next
  case False
  with assms show ?thesis
    by (simp add: store_sequence_step)
qed

lemma foldl_store_drop:
  "length gs \<le> 6 \<Longrightarrow> foldl store_sequence gs xs = drop (length gs + length xs - 6) (gs @ xs)"
proof (induction xs arbitrary: gs)
  case Nil
  then show ?case by simp
next
  case (Cons x xs)
  have len: "length (store_sequence gs x) \<le> 6"
    using Cons.prems by (rule store_sequence_length)
  have step: "foldl store_sequence (store_sequence gs x) xs
      = drop (length (store_sequence gs x) + length xs - 6) (store_sequence gs x @ xs)"
    by (rule Cons.IH [OF len])
  show ?case
  proof (cases "length gs = 6")
    case True
    then have ne: "gs \<noteq> []" by auto
    have "drop (length gs + length (x # xs) - 6) (gs @ x # xs) = drop (length xs) (tl gs @ x # xs)"
      using True ne by (simp add: drop_Suc)
    moreover have "store_sequence gs x = tl gs @ [x]"
      using True by (simp add: store_sequence_step)
    ultimately show ?thesis
      using step True by simp
  next
    case False
    with Cons.prems have lt: "length gs < 6" by simp
    then have "store_sequence gs x = gs @ [x]"
      by (simp add: store_sequence_step)
    with step show ?thesis by simp
  qed
qed

lemma process_frame_no_face:
  "multi_face_landmarks fr = [] \<Longrightarrow> process_frame cv fr gs = Inr (default_flags, gs)"
  by (simp add: process_frame_def default_flags_def)

lemma process_frame_after_loop:
  assumes "face_loop cv (frame_width fr) (frame_height fr) (multi_face_landmarks fr) None
             = Inr (Some (lm, pitch, yaw, roll))"
  shows "process_frame cv fr gs =
           (if \<bar>yaw\<bar> > 10 then
              bindE (gaze_sample lm) (\<lambda>x.
                bindE (detect_oscillation (store_sequence gs x)) (\<lambda>g.
                  Inr (\<lparr>head_abnormal = 1, gaze_abnormal = g, printed = Some (1, g)\<rparr>,
                       store_sequence gs x)))
            else Inr (default_flags, gs))"
proof -
  from assms have "multi_face_landmarks fr \<noteq> []" by auto
  with assms show ?thesis
    by (simp add: process_frame_def default_flags_def Let_def)
qed

lemma process_frame_cases:
  assumes "process_frame cv fr gs = Inr (r, gs')"
  shows "(r = default_flags \<and> gs' = gs)
       \<or> (\<exists>lm pitch yaw roll x g.
            face_loop cv (frame_width fr) (frame_height fr) (multi_face_landmarks fr) None
              = Inr (Some (lm, pitch, yaw, roll))
            \<and> \<bar>yaw\<bar> > 10 \<and> gaze_sample lm = Inr x
            \<and> detect_oscillation (store_sequence gs x) = Inr g
            \<and> r = \<lparr>head_abnormal = 1, gaze_abnormal = g, printed = Some (1, g)\<rparr>
            \<and> gs' = store_sequence gs x)"
proof (cases "multi_face_landmarks fr = []")
  case True
  with assms show ?thesis by (simp add: process_frame_no_face)
next
  case False
  with assms obtain vars where
    loop: "face_loop cv (frame_width fr) (frame_height fr) (multi_face_landmarks fr) None = Inr vars"
    by (auto simp add: process_frame_def bindE_eq_Inr)
  from assms False loop obtain lm pitch yaw roll where vars: "vars = Some (lm, pitch, yaw, roll)"
    by (cases vars) (auto simp add: process_frame_def)
  note after = process_frame_after_loop [OF loop [unfolded vars], of gs]
  show ?thesis
  proof (cases "\<bar>yaw\<bar> > 10")
    case True
    with assms after obtain x g where
      "gaze_sample lm = Inr x" "detect_oscillation (store_sequence gs x) = Inr g"
      "r = \<lparr>head_abnormal = 1, gaze_abnormal = g, printed = Some (1, g)\<rparr>"
      "gs' = store_sequence gs x"
      by (auto simp add: bindE_eq_Inr)
    with True loop vars show ?thesis by blast
  next
    case False
    with assms after show ?thesis by simp
  qed
qed

section \<open>The oscillation check\<close>

text \<open>
  Claim C1. On a gaze window of exactly six samples the oscillation check sets
  \<^verbatim>\<open>gaze_abnormal\<close> to 1 exactly when the largest sample is above 6 and the smallest is
  below -6, and to 0 otherwise; so does every head-abnormal frame that ends with six
  samples in the window. The condition depends on the set of samples only, so no order of
  the extremes is required. The witness evaluates the windows \<open>[8, -8, 8, -8, 8, -8]\<close>
  (1), \<open>[8, 8, 8, 8, 8, 8]\<close> (0) and \<open>[8, 8, 8, 8, 8, -8]\<close> (1), and a frame with yaw 25
  whose sample completes the window \<open>[10, -10, 9, -9, 11, -11]\<close>.
\<close>

theorem gaze_oscillation_iff:
  "(length gs = 6 \<longrightarrow>
      detect_oscillation gs = Inr (if 6 < Max (set gs) \<and> Min (set gs) < - 6 then 1 else 0))
   \<and> (process_frame cv fr prev = Inr (r, gs') \<and> head_abnormal r = 1 \<and> length gs' = 6 \<longrightarrow>
      gaze_abnormal r = (if 6 < Max (set gs') \<and> Min (set gs') < - 6 then 1 else 0))"
proof -
  have "gaze_abnormal r = (if 6 < Max (set gs') \<and> Min (set gs') < - 6 then 1 else 0)"
    if "process_frame cv fr prev = Inr (r, gs')" "head_abnormal r = 1" "length gs' = 6"
    using process_frame_cases [OF that(1)] that(2,3)
    by (auto simp add: default_flags_def detect_full)
  then show ?thesis by (simp add: detect_full)
qed

theorem gaze_oscillation_iff_witness:
  "detect_oscillation [8, - 8, 8, - 8, 8, - 8] = Inr 1
   \<and> detect_oscillation [8, 8, 8, 8, 8, 8] = Inr 0
   \<and> detect_oscillation [8, 8, 8, 8, 8, - 8] = Inr 1
   \<and> process_frame (stub_cv True) (frame_of [face_at 250 (- 11)]) [10, - 10, 9, - 9, 11]
       = Inr (\<lparr>head_abnormal = 1, gaze_abnormal = 1, printed = Some (1, 1)\<rparr>,
              [10, - 10, 9, - 9, 11, - 11])"
proof -
  have run: "process_frame (stub_cv True) (frame_of [face_at 250 (- 11)]) [10, - 10, 9, - 9, 11]
       = Inr (\<lparr>head_abnormal = 1, gaze_abnormal = 1, printed = Some (1, 1)\<rparr>,
              [10, - 10, 9, - 9, 11, - 11])"
    by code_simp
  show ?thesis
    using run
      gaze_oscillation_iff [where gs = "[8, - 8, 8, - 8, 8, - 8]" and cv = "stub_cv True"
        and fr = "frame_of [face_at 250 (- 11)]" and prev = "[10, - 10, 9, - 9, 11]"
        and r = "\<lparr>head_abnormal = 1, gaze_abnormal = 1, printed = Some (1, 1)\<rparr>"
        and gs' = "[10, - 10, 9, - 9, 11, - 11]"]
      gaze_oscillation_iff [where gs = "[8, 8, 8, 8, 8, 8]"]
      gaze_oscillation_iff [where gs = "[8, 8, 8, 8, 8, - 8]"]
    by simp
qed

text \<open>
  Claim C4. Starting from the empty window, after any sequence of stored samples the
  window holds at most six samples and is exactly the last six of them in their order
  (all of them when fewer than six were stored); after seven samples it is the sequence
  without its first element. A frame started with at most six samples in the window ends
  with at most six.
\<close>

theorem gaze_window_fifo:
  "length (foldl store_sequence [] xs) \<le> 6
   \<and> foldl store_sequence [] xs = drop (length xs - 6) xs
   \<and> (length xs = 7 \<longrightarrow> foldl store_sequence [] xs = tl xs)
   \<and> (length gs \<le> 6 \<and> process_frame cv fr gs = Inr (r, gs') \<longrightarrow> length gs' \<le> 6)"
proof -
  have all: "foldl store_sequence [] xs = drop (length xs - 6) xs"
    using foldl_store_drop [of "[]" xs] by simp
  have seven: "foldl store_sequence [] xs = tl xs" if "length xs = 7"
    using that all by (simp add: drop_Suc)
  have frame: "length gs' \<le> 6" if "length gs \<le> 6" "process_frame cv fr gs = Inr (r, gs')"
    using process_frame_cases [OF that(2)] that(1) by (auto simp add: store_sequence_length)
  from all seven frame show ?thesis by simp
qed

theorem gaze_window_fifo_witness:
  "foldl store_sequence [] [1, 2, 3, 4, 5, 6, 7] = [2, 3, 4, 5, 6, 7]
   \<and> process_frame (stub_cv True) (frame_of [face_at 250 7]) [1, 2, 3, 4, 5, 6]
       = Inr (\<lparr>head_abnormal = 1, gaze_abnormal = 0, printed = Some (1, 0)\<rparr>, [2, 3, 4, 5, 6, 7])
   \<and> length [2, 3, 4, 5, 6, 7 :: rat] \<le> 6"
proof -
  have run: "process_frame (stub_cv True) (frame_of [face_at 250 7]) [1, 2, 3, 4, 5, 6]
       = Inr (\<lparr>head_abnormal = 1, gaze_abnormal = 0, printed = Some (1, 0)\<rparr>, [2, 3, 4, 5, 6, 7])"
    by code_simp
  show ?thesis
    using gaze_window_fifo [of "[1, 2, 3, 4, 5, 6, 7]" "[1, 2, 3, 4, 5, 6]" "stub_cv True"
        "frame_of [face_at 250 7]" "\<lparr>head_abnormal = 1, gaze_abnormal = 0, printed = Some (1, 0)\<rparr>"
        "[2, 3, 4, 5, 6, 7]"] run
    by simp
qed

text \<open>
  Claim C5. A window of fewer than six samples is never classified as oscillating, whatever
  the samples are: the check returns 0, and a frame that ends with fewer than six samples
  in the window reports \<^verbatim>\<open>gaze_abnormal = 0\<close>.
\<close>

theorem gaze_cold_start:
  "(length gs < 6 \<longrightarrow> detect_oscillation gs = Inr 0)
   \<and> (process_frame cv fr prev = Inr (r, gs') \<and> length gs' < 6 \<longrightarrow> gaze_abnormal r = 0)"
proof -
  have "gaze_abnormal r = 0" if "process_frame cv fr prev = Inr (r, gs')" "length gs' < 6"
    using process_frame_cases [OF that(1)] that(2)
    by (auto simp add: default_flags_def detect_not_full)
  then show ?thesis by (simp add: detect_not_full)
qed

theorem gaze_cold_start_witness:
  "length [100, - 100, 100, - 100, 100 :: rat] < 6
   \<and> detect_oscillation [100, - 100, 100, - 100, 100] = Inr 0
   \<and> process_frame (stub_cv True) (frame_of [face_at 250 100]) [100, - 100, 100, - 100]
       = Inr (\<lparr>head_abnormal = 1, gaze_abnormal = 0, printed = Some (1, 0)\<rparr>,
              [100, - 100, 100, - 100, 100])
   \<and> gaze_abnormal \<lparr>head_abnormal = 1, gaze_abnormal = 0, printed = Some (1, 0)\<rparr> = 0"
proof -
  have run: "process_frame (stub_cv True) (frame_of [face_at 250 100]) [100, - 100, 100, - 100]
       = Inr (\<lparr>head_abnormal = 1, gaze_abnormal = 0, printed = Some (1, 0)\<rparr>,
              [100, - 100, 100, - 100, 100])"
    by code_simp
  show ?thesis
    using gaze_cold_start [of "[100, - 100, 100, - 100, 100]" "stub_cv True"
        "frame_of [face_at 250 100]" "[100, - 100, 100, - 100]"
        "\<lparr>head_abnormal = 1, gaze_abnormal = 0, printed = Some (1, 0)\<rparr>"
        "[100, - 100, 100, - 100, 100]"] run
    by simp
qed

text \<open>
  Claim C6. Gaze analysis runs only inside the head-abnormal branch: in every frame that
  completes, \<^verbatim>\<open>gaze_abnormal = 1\<close> implies \<^verbatim>\<open>head_abnormal = 1\<close>, and a frame with
  \<^verbatim>\<open>head_abnormal = 0\<close> reports \<^verbatim>\<open>gaze_abnormal = 0\<close>, prints nothing and leaves the
  gaze window as it was (no sample is computed or appended).
\<close>

theorem gaze_gated_on_head:
  assumes "process_frame cv fr gs = Inr (r, gs')"
  shows "(gaze_abnormal r = 1 \<longrightarrow> head_abnormal r = 1)
       \<and> (head_abnormal r = 0 \<longrightarrow> gaze_abnormal r = 0 \<and> printed r = None \<and> gs' = gs)
       \<and> (head_abnormal r = 0 \<or> head_abnormal r = 1)"
  using process_frame_cases [OF assms] by (auto simp add: default_flags_def)

theorem gaze_gated_on_head_witness:
  "process_frame (stub_cv True) (frame_of [face_at 99 (- 8)]) [8, - 8, 8, - 8, 8, - 8]
     = Inr (default_flags, [8, - 8, 8, - 8, 8, - 8])
   \<and> head_abnormal default_flags = 0 \<and> gaze_abnormal default_flags = 0 \<and> printed default_flags = None"
proof -
  have run: "process_frame (stub_cv True) (frame_of [face_at 99 (- 8)]) [8, - 8, 8, - 8, 8, - 8]
     = Inr (default_flags, [8, - 8, 8, - 8, 8, - 8])"
    by code_simp
  show ?thesis
    using gaze_gated_on_head [OF run] run by (simp add: default_flags_def)
qed

section \<open>Camera model\<close>

text \<open>
  Claim C7. For every frame width \<open>W\<close> and height \<open>H\<close> the camera model is the matrix
  \<open>[[W, 0, W/2], [0, W, H/2], [0, 0, 1]]\<close> together with four zero distortion
  coefficients. Both are total functions of \<open>W\<close> and \<open>H\<close> alone, with no error value in
  their type.
\<close>

theorem camera_model:
  "camera_matrix W H = [[rat_of_int W, 0, rat_of_int W / 2],
                        [0, rat_of_int W, rat_of_int H / 2],
                        [0, 0, 1]]
   \<and> dist_coeffs = [[0], [0], [0], [0]]"
  by (simp add: camera_matrix_def dist_coeffs_def numeral_eq_Suc)

section \<open>Frames without a face, frames with several\<close>

text \<open>
  Claim C8. A frame in which no face is detected completes without an error, whatever the
  OpenCV functions are (they are not called): both flags are 0, nothing is printed and the
  gaze window is unchanged.
\<close>

theorem no_face_detected:
  assumes "multi_face_landmarks fr = []"
  shows "process_frame cv fr gs = Inr (default_flags, gs)"
  using assms by (rule process_frame_no_face)

theorem no_face_detected_witness:
  "multi_face_landmarks (frame_of []) = []
   \<and> process_frame (stub_cv True) (frame_of []) [8, - 8, 8, - 8, 8, - 8]
       = Inr (default_flags, [8, - 8, 8, - 8, 8, - 8])"
proof -
  have none: "multi_face_landmarks (frame_of []) = []"
    by (simp add: frame_of_def)
  from none no_face_detected [OF none] show ?thesis by simp
qed

lemma face_body_returns:
  assumes "getitems face [1, 152, 33, 263, 61, 291] = Inr pts"
    and "solvePnP cv model_points (map (\<lambda>(x, y). [rat_of_int x, rat_of_int y]) pts)
           (camera_matrix w h) dist_coeffs = Inr (success, rv, tv)"
    and "Rodrigues cv rv = Inr rmat"
    and "RQDecomp3x3 cv rmat = Inr (pitch, yaw, roll)"
  shows "face_body cv w h face = Inr (face, pitch, yaw, roll)"
  by (simp only: face_body_def assms bindE_Inr Let_def prod.case)

lemma face_body_raises:
  assumes "getitems face [1, 152, 33, 263, 61, 291] = Inr pts"
    and "solvePnP cv model_points (map (\<lambda>(x, y). [rat_of_int x, rat_of_int y]) pts)
           (camera_matrix w h) dist_coeffs = Inl e"
  shows "face_body cv w h face = Inl e"
  by (simp only: face_body_def assms bindE_Inr bindE_Inl Let_def)

lemma face_loop_append:
  "face_loop cv w h (xs @ ys) vars = bindE (face_loop cv w h xs vars) (face_loop cv w h ys)"
proof (induction xs arbitrary: vars)
  case Nil
  show ?case by simp
next
  case (Cons f fs)
  show ?case
    by (cases "face_body cv w h f") (simp_all add: Cons.IH)
qed

lemma face_loop_complete:
  assumes "\<forall>f \<in> set fs. \<exists>v. face_body cv w h f = Inr v"
  shows "\<exists>v. face_loop cv w h fs vars = Inr v"
  using assms
proof (induction fs arbitrary: vars)
  case Nil
  show ?case by simp
next
  case (Cons f fs)
  then obtain v where "face_body cv w h f = Inr v" by auto
  with Cons show ?case by simp
qed

lemma face_loop_last:
  assumes "\<forall>f \<in> set earlier. \<exists>v. face_body cv w h f = Inr v"
  shows "face_loop cv w h (earlier @ [face]) vars
           = bindE (face_body cv w h face) (\<lambda>v. Inr (Some v))"
proof -
  from face_loop_complete [OF assms] obtain v where "face_loop cv w h earlier vars = Inr v"
    by blast
  then show ?thesis by (simp add: face_loop_append)
qed

lemma face_loop_raises:
  assumes "\<forall>f \<in> set before. \<exists>v. face_body cv w h f = Inr v"
    and "face_body cv w h face = Inl e"
  shows "face_loop cv w h (before @ face # after) vars = Inl e"
proof -
  from face_loop_complete [OF assms(1)] obtain v where "face_loop cv w h before vars = Inr v"
    by blast
  with assms(2) show ?thesis by (simp add: face_loop_append)
qed

lemma process_frame_raises:
  assumes "\<forall>f \<in> set before. \<exists>v. face_body cv (frame_width fr) (frame_height fr) f = Inr v"
    and "face_body cv (frame_width fr) (frame_height fr) face = Inl e"
  shows "process_frame cv (fr\<lparr>multi_face_landmarks := before @ face # after\<rparr>) gs = Inl e"
  using face_loop_raises [OF assms, of after None]
  by (simp add: process_frame_def)

lemma process_frame_last_face:
  assumes "\<forall>f \<in> set earlier. \<exists>v. face_body cv (frame_width fr) (frame_height fr) f = Inr v"
    and "face_body cv (frame_width fr) (frame_height fr) face = Inr (lm, pitch, yaw, roll)"
  shows "process_frame cv (fr\<lparr>multi_face_landmarks := earlier @ [face]\<rparr>) gs =
           (if \<bar>yaw\<bar> > 10 then
              bindE (gaze_sample lm) (\<lambda>x.
                bindE (detect_oscillation (store_sequence gs x)) (\<lambda>g.
                  Inr (\<lparr>head_abnormal = 1, gaze_abnormal = g, printed = Some (1, g)\<rparr>,
                       store_sequence gs x)))
            else Inr (default_flags, gs))"
proof -
  have "face_loop cv (frame_width fr) (frame_height fr) (earlier @ [face]) None
          = Inr (Some (lm, pitch, yaw, roll))"
    using face_loop_last [OF assms(1), of face None] assms(2) by simp
  then show ?thesis
    using process_frame_after_loop [of cv "fr\<lparr>multi_face_landmarks := earlier @ [face]\<rparr>"
        lm pitch yaw roll gs]
    by simp
qed

text \<open>
  Claim C9. When several faces are detected and the pose calls return on each of them,
  the frame is classified on the last face alone. Its result is the head threshold applied
  to the yaw that \<open>solvePnP\<close>, \<open>Rodrigues\<close> and \<open>RQDecomp3x3\<close> give for the six pose
  landmarks of the last face and the camera model of the frame, followed, when the head is
  abnormal, by the gaze sample of the last face's landmarks; it is the result of the frame
  with the last face alone. The earlier faces are processed first, in order: an exception
  on any face (an OpenCV error, a missing landmark) ends the frame with that exception,
  and no flag is emitted. In the witness a frontal face followed by a turned one gives
  \<^verbatim>\<open>head_abnormal = 1\<close> and a stored sample, the opposite order gives the default flags,
  and a face on which the solver raises ends the frame although the last face is sound.
\<close>

theorem last_face_wins:
  "((\<forall>f \<in> set earlier. \<exists>v. face_body cv (frame_width fr) (frame_height fr) f = Inr v)
      \<and> getitems face [1, 152, 33, 263, 61, 291] = Inr pts
      \<and> solvePnP cv model_points (map (\<lambda>(x, y). [rat_of_int x, rat_of_int y]) pts)
           (camera_matrix (frame_width fr) (frame_height fr)) dist_coeffs = Inr (success, rv, tv)
      \<and> Rodrigues cv rv = Inr rmat
      \<and> RQDecomp3x3 cv rmat = Inr (pitch, yaw, roll) \<longrightarrow>
    process_frame cv (fr\<lparr>multi_face_landmarks := earlier @ [face]\<rparr>) gs =
      (if \<bar>yaw\<bar> > 10 then
         bindE (gaze_sample face) (\<lambda>x.
           bindE (detect_oscillation (store_sequence gs x)) (\<lambda>g.
             Inr (\<lparr>head_abnormal = 1, gaze_abnormal = g, printed = Some (1, g)\<rparr>,
                  store_sequence gs x)))
       else Inr (default_flags, gs))
    \<and> process_frame cv (fr\<lparr>multi_face_landmarks := earlier @ [face]\<rparr>) gs
        = process_frame cv (fr\<lparr>multi_face_landmarks := [face]\<rparr>) gs)
   \<and> ((\<forall>f \<in> set before. \<exists>v. face_body cv (frame_width fr) (frame_height fr) f = Inr v)
      \<and> face_body cv (frame_width fr) (frame_height fr) bad = Inl e \<longrightarrow>
    process_frame cv (fr\<lparr>multi_face_landmarks := before @ bad # after\<rparr>) gs = Inl e)"
proof -
  have main: "process_frame cv (fr\<lparr>multi_face_landmarks := earlier @ [face]\<rparr>) gs =
      (if \<bar>yaw\<bar> > 10 then
         bindE (gaze_sample face) (\<lambda>x.
           bindE (detect_oscillation (store_sequence gs x)) (\<lambda>g.
             Inr (\<lparr>head_abnormal = 1, gaze_abnormal = g, printed = Some (1, g)\<rparr>,
                  store_sequence gs x)))
       else Inr (default_flags, gs))
    \<and> process_frame cv (fr\<lparr>multi_face_landmarks := earlier @ [face]\<rparr>) gs
        = process_frame cv (fr\<lparr>multi_face_landmarks := [face]\<rparr>) gs"
    if earlier: "\<forall>f \<in> set earlier. \<exists>v. face_body cv (frame_width fr) (frame_height fr) f = Inr v"
      and pose: "getitems face [1, 152, 33, 263, 61, 291] = Inr pts"
        "solvePnP cv model_points (map (\<lambda>(x, y). [rat_of_int x, rat_of_int y]) pts)
           (camera_matrix (frame_width fr) (frame_height fr)) dist_coeffs = Inr (success, rv, tv)"
        "Rodrigues cv rv = Inr rmat"
        "RQDecomp3x3 cv rmat = Inr (pitch, yaw, roll)"
  proof -
    note body = face_body_returns [OF pose]
    have none: "\<forall>f \<in> set []. \<exists>v. face_body cv (frame_width fr) (frame_height fr) f = Inr v"
      by simp
    show ?thesis
      using process_frame_last_face [OF earlier body, of gs]
        process_frame_last_face [OF none body, of gs]
      by simp
  qed
  from main process_frame_raises [of before cv fr bad e after gs] show ?thesis
    by blast
qed

lemma stub_body:
  "face_body (stub_cv ok) 640 480 (face_at nose iris)
     = Inr (face_at nose iris, 0, rat_of_int nose / 10, 0)"
  by (simp add: face_body_def stub_cv_def face_at_def getitem_def Let_def)

lemma face_at_pose_points:
  "getitems (face_at nose iris) [1, 152, 33, 263, 61, 291]
     = Inr [(nose, 0), (0, 0), (0, 0), (0, 0), (0, 0), (0, 0)]"
  by (simp add: face_at_def getitem_def)

lemma face_at_sample: "gaze_sample (face_at nose iris) = Inr (rat_of_int iris)"
  by (simp add: gaze_sample_def face_at_def getitem_def py_int_def Let_def)

theorem last_face_wins_witness:
  "process_frame (stub_cv True) (frame_of [face_at 0 2, face_at 250 8]) []
     = Inr (\<lparr>head_abnormal = 1, gaze_abnormal = 0, printed = Some (1, 0)\<rparr>, [8])
   \<and> process_frame (stub_cv True) (frame_of [face_at 250 8, face_at 0 2]) []
     = Inr (default_flags, [])
   \<and> process_frame strict_cv (frame_of [face_at 250 8, face_at 0 8, face_at 250 8]) []
     = Inl CvError"
proof -
  let ?fr = "frame_of []"
  have size: "frame_width ?fr = 640" "frame_height ?fr = 480"
    by (simp_all add: frame_of_def)
  have upd: "?fr\<lparr>multi_face_landmarks := faces\<rparr> = frame_of faces" for faces
    by (simp add: frame_of_def)
  have two: "process_frame (stub_cv True) (frame_of [face_at n1 i1, face_at n2 i2]) [] =
      (if \<bar>rat_of_int n2 / 10\<bar> > 10 then
         bindE (gaze_sample (face_at n2 i2)) (\<lambda>x.
           bindE (detect_oscillation (store_sequence [] x)) (\<lambda>g.
             Inr (\<lparr>head_abnormal = 1, gaze_abnormal = g, printed = Some (1, g)\<rparr>,
                  store_sequence [] x)))
       else Inr (default_flags, []))" for n1 i1 n2 i2
  proof -
    have "\<exists>v. face_body (stub_cv True) (frame_width ?fr) (frame_height ?fr) (face_at n1 i1) = Inr v"
      unfolding size stub_body by blast
    then have earlier: "\<forall>f \<in> set [face_at n1 i1].
        \<exists>v. face_body (stub_cv True) (frame_width ?fr) (frame_height ?fr) f = Inr v"
      by simp
    have solve: "solvePnP (stub_cv True) model_points
        (map (\<lambda>(x, y). [rat_of_int x, rat_of_int y]) [(n2, 0), (0, 0), (0, 0), (0, 0), (0, 0), (0, 0)])
        (camera_matrix (frame_width ?fr) (frame_height ?fr)) dist_coeffs
       = Inr (True, [[0], [rat_of_int n2 / 10], [0]], [[0], [0], [0]])"
      by (simp add: stub_cv_def)
    have rod: "Rodrigues (stub_cv True) [[0], [rat_of_int n2 / 10], [0]]
        = Inr [[0], [rat_of_int n2 / 10], [0]]"
      by (simp add: stub_cv_def)
    have rq: "RQDecomp3x3 (stub_cv True) [[0], [rat_of_int n2 / 10], [0]]
        = Inr (0, rat_of_int n2 / 10, 0)"
      by (simp add: stub_cv_def)
    from earlier face_at_pose_points [of n2 i2] solve rod rq
    have "process_frame (stub_cv True) (?fr\<lparr>multi_face_landmarks := [face_at n1 i1] @ [face_at n2 i2]\<rparr>) [] =
      (if \<bar>rat_of_int n2 / 10\<bar> > 10 then
         bindE (gaze_sample (face_at n2 i2)) (\<lambda>x.
           bindE (detect_oscillation (store_sequence [] x)) (\<lambda>g.
             Inr (\<lparr>head_abnormal = 1, gaze_abnormal = g, printed = Some (1, g)\<rparr>,
                  store_sequence [] x)))
       else Inr (default_flags, []))"
      by (intro last_face_wins [THEN conjunct1, rule_format, THEN conjunct1] conjI)
    then show ?thesis by (simp add: upd)
  qed
  have detect: "detect_oscillation [8] = Inr 0"
    by code_simp
  have store: "store_sequence [] 8 = [8]"
    by code_simp
  have "face_body strict_cv (frame_width ?fr) (frame_height ?fr) (face_at 250 8)
      = Inr (face_at 250 8, 0, 25, 0)"
    by (simp add: size face_body_def strict_cv_def stub_cv_def face_at_def getitem_def Let_def)
  then have strict_ok: "\<forall>f \<in> set [face_at 250 8].
      \<exists>v. face_body strict_cv (frame_width ?fr) (frame_height ?fr) f = Inr v"
    by simp
  have strict_bad: "face_body strict_cv (frame_width ?fr) (frame_height ?fr) (face_at 0 8) = Inl CvError"
    by (simp add: size face_body_def strict_cv_def stub_cv_def face_at_def getitem_def Let_def)
  from strict_ok strict_bad
  have "process_frame strict_cv
      (?fr\<lparr>multi_face_landmarks := [face_at 250 8] @ face_at 0 8 # [face_at 250 8]\<rparr>) [] = Inl CvError"
    by (intro last_face_wins [THEN conjunct2, rule_format] conjI)
  then have raised: "process_frame strict_cv (frame_of [face_at 250 8, face_at 0 8, face_at 250 8]) []
      = Inl CvError"
    by (simp add: upd)
  from two [of 0 2 250 8] two [of 250 8 0 2] raised show ?thesis
    by (simp add: face_at_sample detect store)
qed

section \<open>Head classification and the pose solve\<close>

lemma gaze_sample_total:
  assumes "473 < length lm"
  shows "\<exists>x. gaze_sample lm = Inr x"
proof -
  have at: "getitem lm i = Inr (lm ! i)" if "i \<le> 473" for i
    using that assms by (simp add: getitem_in_range)
  have "getitem lm 468 = Inr (lm ! 468)" "getitem lm 473 = Inr (lm ! 473)"
    "getitem lm 33 = Inr (lm ! 33)" "getitem lm 133 = Inr (lm ! 133)"
    "getitem lm 362 = Inr (lm ! 362)" "getitem lm 263 = Inr (lm ! 263)"
    by (simp_all add: at)
  then show ?thesis
    by (simp only: gaze_sample_def bindE_Inr Let_def) blast
qed

text \<open>
  Claim C2. Let \<open>yaw\<close> be the yaw the face loop leaves behind, on a face that has all the
  landmarks the program reads (indices up to 473). Then the frame completes, and
  \<^verbatim>\<open>head_abnormal\<close> is 1 if \<open>\<bar>yaw\<bar> > 10\<close> and 0 otherwise, whatever the pitch, the roll
  and the gaze window carried over from earlier frames are. The witness evaluates yaw 9.9
  (flag 0), 10.1 (flag 1) and -15 (flag 1).
\<close>

theorem head_abnormal_threshold:
  assumes "face_loop cv (frame_width fr) (frame_height fr) (multi_face_landmarks fr) None
             = Inr (Some (lm, pitch, yaw, roll))"
    and "473 < length lm"
  shows "\<exists>r gs'. process_frame cv fr gs = Inr (r, gs')
           \<and> head_abnormal r = (if \<bar>yaw\<bar> > 10 then 1 else 0)"
proof (cases "\<bar>yaw\<bar> > 10")
  case True
  from assms(2) obtain x where x: "gaze_sample lm = Inr x"
    using gaze_sample_total by blast
  obtain g where g: "detect_oscillation (store_sequence gs x) = Inr g"
    using detect_total by blast
  from True x g show ?thesis
    by (simp add: process_frame_after_loop [OF assms(1)])
next
  case False
  then show ?thesis
    by (simp add: process_frame_after_loop [OF assms(1)] default_flags_def)
qed

lemma stub_loop:
  "face_loop (stub_cv ok) 640 480 [face_at nose iris] None
     = Inr (Some (face_at nose iris, 0, rat_of_int nose / 10, 0))"
  by (simp add: face_body_def stub_cv_def face_at_def getitem_def Let_def)

theorem head_abnormal_threshold_witness:
  "(\<exists>r gs'. process_frame (stub_cv True) (frame_of [face_at 99 8]) [] = Inr (r, gs')
      \<and> head_abnormal r = 0)
   \<and> (\<exists>r gs'. process_frame (stub_cv True) (frame_of [face_at 101 8]) [] = Inr (r, gs')
      \<and> head_abnormal r = 1)
   \<and> (\<exists>r gs'. process_frame (stub_cv True) (frame_of [face_at (- 150) 8]) [] = Inr (r, gs')
      \<and> head_abnormal r = 1)"
proof -
  have len: "473 < length (face_at nose iris)" for nose iris
    by (simp add: face_at_def)
  have loop: "face_loop (stub_cv True) (frame_width (frame_of [face_at nose 8]))
      (frame_height (frame_of [face_at nose 8])) (multi_face_landmarks (frame_of [face_at nose 8])) None
     = Inr (Some (face_at nose 8, 0, rat_of_int nose / 10, 0))" for nose
    using stub_loop [of True nose 8] by (simp add: frame_of_def)
  show ?thesis
    using head_abnormal_threshold [OF loop [of 99] len, of "[]"]
      head_abnormal_threshold [OF loop [of 101] len, of "[]"]
      head_abnormal_threshold [OF loop [of "- 150"] len, of "[]"]
    by simp
qed




section \<open>The gaze window across frames\<close>

lemma run_window:
  "run cv frs gs = Inr (rs, gs') \<Longrightarrow> \<exists>ys. length ys \<le> length frs \<and> gs' = foldl store_sequence gs ys"
proof (induction frs arbitrary: gs rs)
  case Nil
  then show ?case by simp
next
  case (Cons fr frs)
  from Cons.prems obtain r gs1 rs1 where
    first: "process_frame cv fr gs = Inr (r, gs1)" and rest: "run cv frs gs1 = Inr (rs1, gs')"
    by (auto simp add: bindE_eq_Inr)
  from Cons.IH [OF rest] obtain ys where
    ys: "length ys \<le> length frs" "gs' = foldl store_sequence gs1 ys" by blast
  from process_frame_cases [OF first] show ?case
  proof
    assume "r = default_flags \<and> gs1 = gs"
    with ys have "length ys \<le> length (fr # frs) \<and> gs' = foldl store_sequence gs ys" by simp
    then show ?thesis by blast
  next
    assume "\<exists>lm pitch yaw roll x g.
            face_loop cv (frame_width fr) (frame_height fr) (multi_face_landmarks fr) None
              = Inr (Some (lm, pitch, yaw, roll))
            \<and> \<bar>yaw\<bar> > 10 \<and> gaze_sample lm = Inr x
            \<and> detect_oscillation (store_sequence gs x) = Inr g
            \<and> r = \<lparr>head_abnormal = 1, gaze_abnormal = g, printed = Some (1, g)\<rparr>
            \<and> gs1 = store_sequence gs x"
    then obtain x where "gs1 = store_sequence gs x" by blast
    with ys have "length (x # ys) \<le> length (fr # frs) \<and> gs' = foldl store_sequence gs (x # ys)"
      by simp
    then show ?thesis by blast
  qed
qed

text \<open>
  Claim C10. A frame that completes leaves the gaze window unchanged, or appends one
  sample to it, dropping the oldest one only when the window already held six; it is
  unchanged whenever no face is detected or the head is not abnormal. Over any run of
  frames started with at most six samples, the final window is the last six elements of
  the old window followed by the samples appended during the run (at most one per frame):
  nothing is ever cleared. The witness runs the session above, where the six samples of
  the window that raises \<^verbatim>\<open>gaze_abnormal = 1\<close> come from frames 1, 3, 5, 7, 8 and 10.
\<close>

theorem gaze_window_persistence:
  "(process_frame cv fr gs = Inr (r, gs') \<longrightarrow>
      (multi_face_landmarks fr = [] \<or> head_abnormal r = 0 \<longrightarrow> gs' = gs)
      \<and> (gs' = gs \<or> (\<exists>x. gs' = (if length gs < 6 then gs @ [x] else tl gs @ [x]))))
   \<and> (length gs \<le> 6 \<and> run cv frs gs = Inr (rs, final) \<longrightarrow>
      (\<exists>ys. length ys \<le> length frs \<and> final = drop (length gs + length ys - 6) (gs @ ys)))"
proof -
  have frame: "(multi_face_landmarks fr = [] \<or> head_abnormal r = 0 \<longrightarrow> gs' = gs)
      \<and> (gs' = gs \<or> (\<exists>x. gs' = (if length gs < 6 then gs @ [x] else tl gs @ [x])))"
    if "process_frame cv fr gs = Inr (r, gs')"
    using process_frame_cases [OF that] that
    by (auto simp add: store_sequence_step process_frame_no_face)
  have whole: "\<exists>ys. length ys \<le> length frs \<and> final = drop (length gs + length ys - 6) (gs @ ys)"
    if "length gs \<le> 6" "run cv frs gs = Inr (rs, final)"
    using run_window [OF that(2)] foldl_store_drop [OF that(1)] by auto
  from frame whole show ?thesis by blast
qed

theorem gaze_window_persistence_witness:
  "process_frame (stub_cv True) (frame_of []) [10, - 10, 9] = Inr (default_flags, [10, - 10, 9])
   \<and> run (stub_cv True) session []
       = Inr ([\<lparr>head_abnormal = 1, gaze_abnormal = 0, printed = Some (1, 0)\<rparr>,
               default_flags,
               \<lparr>head_abnormal = 1, gaze_abnormal = 0, printed = Some (1, 0)\<rparr>,
               default_flags,
               \<lparr>head_abnormal = 1, gaze_abnormal = 0, printed = Some (1, 0)\<rparr>,
               default_flags,
               \<lparr>head_abnormal = 1, gaze_abnormal = 0, printed = Some (1, 0)\<rparr>,
               \<lparr>head_abnormal = 1, gaze_abnormal = 0, printed = Some (1, 0)\<rparr>,
               default_flags,
               \<lparr>head_abnormal = 1, gaze_abnormal = 1, printed = Some (1, 1)\<rparr>],
              [10, - 10, 9, - 9, 11, - 11])
   \<and> (\<exists>ys. length ys \<le> length session
         \<and> [10, - 10, 9, - 9, 11, - 11 :: rat] = drop (length ys - 6) ys)"
proof -
  have frame: "process_frame (stub_cv True) (frame_of []) [10, - 10, 9]
      = Inr (default_flags, [10, - 10, 9])"
    by code_simp
  have whole: "run (stub_cv True) session []
       = Inr ([\<lparr>head_abnormal = 1, gaze_abnormal = 0, printed = Some (1, 0)\<rparr>,
               default_flags,
               \<lparr>head_abnormal = 1, gaze_abnormal = 0, printed = Some (1, 0)\<rparr>,
               default_flags,
               \<lparr>head_abnormal = 1, gaze_abnormal = 0, printed = Some (1, 0)\<rparr>,
               default_flags,
               \<lparr>head_abnormal = 1, gaze_abnormal = 0, printed = Some (1, 0)\<rparr>,
               \<lparr>head_abnormal = 1, gaze_abnormal = 0, printed = Some (1, 0)\<rparr>,
               default_flags,
               \<lparr>head_abnormal = 1, gaze_abnormal = 1, printed = Some (1, 1)\<rparr>],
              [10, - 10, 9, - 9, 11, - 11])"
    by code_simp
  let ?rs = "[\<lparr>head_abnormal = 1, gaze_abnormal = 0, printed = Some (1, 0)\<rparr>,
               default_flags,
               \<lparr>head_abnormal = 1, gaze_abnormal = 0, printed = Some (1, 0)\<rparr>,
               default_flags,
               \<lparr>head_abnormal = 1, gaze_abnormal = 0, printed = Some (1, 0)\<rparr>,
               default_flags,
               \<lparr>head_abnormal = 1, gaze_abnormal = 0, printed = Some (1, 0)\<rparr>,
               \<lparr>head_abnormal = 1, gaze_abnormal = 0, printed = Some (1, 0)\<rparr>,
               default_flags,
               \<lparr>head_abnormal = 1, gaze_abnormal = 1, printed = Some (1, 1)\<rparr>]"
  show ?thesis
    using frame whole
      gaze_window_persistence [where cv = "stub_cv True" and fr = "frame_of []"
        and gs = "[]" and frs = session and rs = ?rs and final = "[10, - 10, 9, - 9, 11, - 11]"]
    by simp
qed

end
